theory Spec2Isabelle
  imports Complex_Main "HOL-Library.Sublist" "HOL-Library.Log_Nat"
begin

section \<open>Values of the source language\<close>

subsection \<open>Numbers\<close>

text \<open>
  A TypeScript \<^verbatim>\<open>number\<close> is an IEEE-754 binary64 value. A finite double is modelled
  by the real number it denotes, and every arithmetic operator of the source rounds its
  exact result to the nearest double, ties to even (\<open>fl\<close>). The exponent range is not
  bounded in the model (no overflow to infinity, no subnormal numbers), and NaN and the
  infinities are not numbers of the model: where the source can produce one, the model
  names it apart (see \<open>score\<close>).
\<close>

type_synonym number = real

definition round_half_even :: "real \<Rightarrow> int" where
  "round_half_even t =
     (let f = \<lfloor>t\<rfloor>; d = t - of_int f
      in if d < 1 / 2 then f else if 1 / 2 < d then f + 1 else if even f then f else f + 1)"

text \<open>\<open>expo x\<close> is the binary exponent of \<open>x \<noteq> 0\<close>: \<open>2 powi expo x \<le> \<bar>x\<bar> < 2 powi (expo x + 1)\<close>.\<close>

definition expo :: "real \<Rightarrow> int" where
  "expo x = (if 1 \<le> \<bar>x\<bar> then bitlen \<lfloor>\<bar>x\<bar>\<rfloor> - 1 else - bitlen (\<lceil>1 / \<bar>x\<bar>\<rceil> - 1))"

text \<open>Rounding to 53 significant bits.\<close>

definition fl :: "real \<Rightarrow> number" where
  "fl x = (if x = 0 then 0
           else let s = 2 powi (expo x - 52) in of_int (round_half_even (x / s)) * s)"

definition fsub :: "number \<Rightarrow> number \<Rightarrow> number" where
  "fsub a b = fl (a - b)"

definition fadd :: "number \<Rightarrow> number \<Rightarrow> number" where
  "fadd a b = fl (a + b)"

definition fmul :: "number \<Rightarrow> number \<Rightarrow> number" where
  "fmul a b = fl (a * b)"

text \<open>\<^verbatim>\<open>a / b\<close> with \<open>b \<noteq> 0\<close>; the callers test the divisor.\<close>

definition fdiv :: "number \<Rightarrow> number \<Rightarrow> number" where
  "fdiv a b = fl (a / b)"

text \<open>\<^verbatim>\<open>Math.round\<close>: the nearest integer, a tie going towards plus infinity.\<close>

definition Math_round :: "number \<Rightarrow> number" where
  "Math_round x = of_int \<lfloor>x + 1 / 2\<rfloor>"

text \<open>\<^verbatim>\<open>Math.pow(x, 2)\<close> and \<^verbatim>\<open>Math.sqrt\<close>, both taken as correctly rounded.\<close>

definition Math_pow2 :: "number \<Rightarrow> number" where
  "Math_pow2 x = fl (x * x)"

definition Math_sqrt :: "number \<Rightarrow> number" where
  "Math_sqrt x = fl (sqrt x)"

text \<open>Truthiness of a number, as \<^verbatim>\<open>||\<close> and \<^verbatim>\<open>!\<close> test it: zero is falsy.\<close>

definition truthy :: "number \<Rightarrow> bool" where
  "truthy x = (x \<noteq> 0)"

subsection \<open>Strings\<close>

text \<open>
  A string is the list of its code units, which the model takes below 256 (the Latin-1
  range of Unicode). In that range \<^verbatim>\<open>toLowerCase\<close> maps the capitals, \<open>A\<close> to \<open>Z\<close> and
  U+00C0 to U+00DE without the multiplication sign U+00D7, to their small letters, 32 code
  units above, and leaves every other code unit as it is; \<^verbatim>\<open>trim\<close> removes the white space
  of that range at both ends.
\<close>

definition lower_char :: "char \<Rightarrow> char" where
  "lower_char c =
     (let n = of_char c :: nat
      in if (65 \<le> n \<and> n \<le> 90) \<or> (192 \<le> n \<and> n \<le> 222 \<and> n \<noteq> 215)
         then char_of (n + 32) else c)"

definition toLowerCase :: "string \<Rightarrow> string" where
  "toLowerCase s = map lower_char s"

definition is_white_space :: "char \<Rightarrow> bool" where
  "is_white_space c =
     (c \<in> set [CHR 0x09, CHR 0x0A, CHR 0x0B, CHR 0x0C, CHR 0x0D, CHR 0x20, CHR 0xA0])"

definition trim :: "string \<Rightarrow> string" where
  "trim s = rev (dropWhile is_white_space (rev (dropWhile is_white_space s)))"

text \<open>\<^verbatim>\<open>s.includes(t)\<close>: the search tries every start position of \<open>s\<close> in turn.\<close>

fun string_includes :: "string \<Rightarrow> string \<Rightarrow> bool" where
  "string_includes [] t = (t = [])"
| "string_includes (c # s) t = (prefix t (c # s) \<or> string_includes s t)"

subsection \<open>\<^verbatim>\<open>JSON.stringify\<close> on an array of strings\<close>

definition hex_digit :: "nat \<Rightarrow> char" where
  "hex_digit n = ''0123456789abcdef'' ! n"

text \<open>
  The quotation mark, the reverse solidus and the control characters are escaped, the five
  control characters with a short form by that form and the others as \<^verbatim>\<open>\u00XX\<close>.
\<close>

definition JSON_escape :: "char \<Rightarrow> string" where
  "JSON_escape c =
     (if c = CHR 0x22 then [CHR 0x5C, CHR 0x22]
      else if c = CHR 0x5C then [CHR 0x5C, CHR 0x5C]
      else if c = CHR 0x08 then [CHR 0x5C, CHR ''b'']
      else if c = CHR 0x09 then [CHR 0x5C, CHR ''t'']
      else if c = CHR 0x0A then [CHR 0x5C, CHR ''n'']
      else if c = CHR 0x0C then [CHR 0x5C, CHR ''f'']
      else if c = CHR 0x0D then [CHR 0x5C, CHR ''r'']
      else if (of_char c :: nat) < 32
        then [CHR 0x5C, CHR ''u'', CHR ''0'', CHR ''0'',
              hex_digit (of_char c div 16), hex_digit (of_char c mod 16)]
      else [c])"

definition JSON_quote :: "string \<Rightarrow> string" where
  "JSON_quote s = CHR 0x22 # concat (map JSON_escape s) @ [CHR 0x22]"

fun JSON_elements :: "string list \<Rightarrow> string" where
  "JSON_elements [] = '']''"
| "JSON_elements [x] = JSON_quote x @ '']''"
| "JSON_elements (x # y # zs) = JSON_quote x @ CHR '','' # JSON_elements (y # zs)"

definition JSON_stringify :: "string list \<Rightarrow> string" where
  "JSON_stringify xs = CHR ''['' # JSON_elements xs"

subsection \<open>\<^verbatim>\<open>Set\<close> and \<^verbatim>\<open>Map\<close>\<close>

text \<open>
  A \<^verbatim>\<open>Set\<close> is the list of its members in insertion order, without repetition;
  \<^verbatim>\<open>new Set(xs)\<close> adds the elements of \<open>xs\<close> one after the other. A \<^verbatim>\<open>Map\<close> is the list
  of its entries.
\<close>

definition Set_add :: "'a list \<Rightarrow> 'a \<Rightarrow> 'a list" where
  "Set_add s x = (if x \<in> set s then s else s @ [x])"

definition new_Set :: "'a list \<Rightarrow> 'a list" where
  "new_Set xs = foldl Set_add [] xs"

definition Set_size :: "'a list \<Rightarrow> nat" where
  "Set_size s = length s"

definition Set_has :: "'a list \<Rightarrow> 'a \<Rightarrow> bool" where
  "Set_has s x = (x \<in> set s)"

definition Map_get :: "('k \<times> 'v) list \<Rightarrow> 'k \<Rightarrow> 'v option" where
  "Map_get m k = map_of m k"

section \<open>Questions and their grading\<close>

record MultipleChoiceOption =
  option_id :: string
  option_text :: string
  is_correct :: bool

record SwipeCard =
  correct_swipe :: string

record MatchingPair =
  pair_id :: string

text \<open>
  The content of a question is a \<^verbatim>\<open>Record<string, unknown>\<close>; the record below has the
  fields that \<^verbatim>\<open>checkAnswer\<close> reads, each at the type of the cast that reads it.
\<close>

record Content =
  options :: "MultipleChoiceOption list"
  error_index :: number
  correct_ids_to_remove :: "number list"
  correct_order :: "string list"
  correct_phrase :: string
  cards :: "SwipeCard list"
  correct_answer :: string
  pairs :: "MatchingPair list"
  target_x :: number
  target_y :: number
  radius :: number
  correct_trend :: string
  correct_value :: number
  tolerance :: number

record Question =
  question_id :: number
  node_id :: number
  qtype :: string
  content :: Content

text \<open>
  The answer is an \<^verbatim>\<open>unknown\<close> that is not \<^verbatim>\<open>null\<close> (the caller returns before grading a
  \<^verbatim>\<open>null\<close>): one constructor for each kind of value the question components hand over.
\<close>

datatype answer =
    AString string
  | ANumber number
  | ANumberSet "number list"
  | AStringArray "string list"
  | AStringMap "(string \<times> string) list"
  | APoint number number

text \<open>
  \<open>TypeError\<close> is the exception of the source language; \<open>IllTypedAnswer\<close> marks an
  answer that is not of the type a cast of \<^verbatim>\<open>checkAnswer\<close> asserts, where the coercions of
  the source language are outside the model.
\<close>

datatype error = TypeError | IllTypedAnswer

definition known_types :: "string list" where
  "known_types =
     [''multiple_choice'', ''find_error'', ''strike_out'', ''ordering'', ''highlight'',
      ''swipe_decision'', ''fill_gap'', ''matching'', ''graph_point'', ''trend_arrow'',
      ''slider_value'']"

text \<open>\<^verbatim>\<open>cards.every((card, i) => card.correct_swipe === answers[i])\<close>: past the end of
  \<open>answers\<close> the right-hand side is \<^verbatim>\<open>undefined\<close>, which no string equals.\<close>

fun every_swipe :: "SwipeCard list \<Rightarrow> string list \<Rightarrow> bool" where
  "every_swipe [] answers = True"
| "every_swipe (c # cs) [] = False"
| "every_swipe (c # cs) (a # answers) = (correct_swipe c = a \<and> every_swipe cs answers)"

definition checkAnswer :: "Question \<Rightarrow> answer \<Rightarrow> error + bool" where
  "checkAnswer question answer =
     (let c = content question in
      if qtype question = ''multiple_choice'' then
        (case find is_correct (options c) of
           None \<Rightarrow> Inr False
         | Some correctOption \<Rightarrow> Inr (answer = AString (option_id correctOption)))
      else if qtype question = ''find_error'' then
        Inr (answer = ANumber (error_index c))
      else if qtype question = ''strike_out'' then
        (let correctIds = new_Set (correct_ids_to_remove c) in
         case answer of
           ANumberSet answerSet \<Rightarrow>
             Inr (Set_size answerSet = Set_size correctIds \<and>
                  list_all (\<lambda>i. Set_has correctIds i) answerSet)
         | _ \<Rightarrow> Inl IllTypedAnswer)
      else if qtype question = ''ordering'' then
        (case answer of
           AStringArray answerOrder \<Rightarrow>
             Inr (JSON_stringify answerOrder = JSON_stringify (correct_order c))
         | _ \<Rightarrow> Inl IllTypedAnswer)
      else if qtype question = ''highlight'' then
        (let correctPhrase = toLowerCase (correct_phrase c) in
         case answer of
           AString a \<Rightarrow>
             (let answerText = toLowerCase a
              in Inr (string_includes answerText correctPhrase \<or>
                      string_includes correctPhrase answerText))
         | _ \<Rightarrow> Inl IllTypedAnswer)
      else if qtype question = ''swipe_decision'' then
        (case answer of
           AStringArray answers \<Rightarrow> Inr (every_swipe (cards c) answers)
         | _ \<Rightarrow> Inl IllTypedAnswer)
      else if qtype question = ''fill_gap'' then
        (let correctAnswer = trim (toLowerCase (correct_answer c)) in
         case answer of
           AString a \<Rightarrow> Inr (trim (toLowerCase a) = correctAnswer)
         | _ \<Rightarrow> Inl IllTypedAnswer)
      else if qtype question = ''matching'' then
        (case answer of
           AStringMap matches \<Rightarrow>
             Inr (list_all (\<lambda>pair. Map_get matches (pair_id pair) = Some (pair_id pair)) (pairs c))
         | _ \<Rightarrow> Inl IllTypedAnswer)
      else if qtype question = ''graph_point'' then
        (case answer of
           APoint x y \<Rightarrow>
             (let distance = Math_sqrt (fadd (Math_pow2 (fsub x (target_x c)))
                                            (Math_pow2 (fsub y (target_y c))))
              in Inr (distance \<le> radius c))
         | _ \<Rightarrow> Inl IllTypedAnswer)
      else if qtype question = ''trend_arrow'' then
        Inr (answer = AString (correct_trend c))
      else if qtype question = ''slider_value'' then
        (case answer of
           ANumber a \<Rightarrow> Inr (\<bar>fsub a (correct_value c)\<bar> \<le> tolerance c)
         | _ \<Rightarrow> Inl IllTypedAnswer)
      else Inr False)"

section \<open>The test session\<close>

record PassageNode =
  passage_node_id :: number
  passage_id :: number
  passage_node_title :: string
  passage_node_content :: string
  order_index :: number
  reward_coins :: number
  reward_xp :: number
  pass_score :: number
  is_boss :: bool

record QuestionResult =
  questionId :: number
  isCorrect :: bool
  userAnswer :: "answer option"

text \<open>The state of \<^verbatim>\<open>TestModePage\<close>; \<open>None\<close> is \<^verbatim>\<open>null\<close>.\<close>

record TestState =
  node :: "PassageNode option"
  questions :: "Question list"
  isLoading :: bool
  currentIndex :: nat
  results :: "QuestionResult list"
  isComplete :: bool
  currentAnswer :: "answer option"
  showFeedback :: bool
  isCurrentCorrect :: bool

text \<open>
  \<^verbatim>\<open>currentQuestion\<close> is \<^verbatim>\<open>questions[currentIndex]\<close>, which is \<^verbatim>\<open>undefined\<close> past the end of
  the array; reading a property of it raises \<open>TypeError\<close>.
\<close>

definition currentQuestion :: "TestState \<Rightarrow> Question option" where
  "currentQuestion s =
     (if currentIndex s < length (questions s) then Some (questions s ! currentIndex s) else None)"

definition handleSubmitAnswer :: "TestState \<Rightarrow> error + TestState" where
  "handleSubmitAnswer s =
     (case currentAnswer s of
        None \<Rightarrow> Inr s
      | Some a \<Rightarrow>
          (case currentQuestion s of
             None \<Rightarrow> Inl TypeError
           | Some q \<Rightarrow>
               (case checkAnswer q a of
                  Inl e \<Rightarrow> Inl e
                | Inr correct \<Rightarrow> Inr (s\<lparr>isCurrentCorrect := correct, showFeedback := True\<rparr>))))"

definition handleNextQuestion :: "TestState \<Rightarrow> error + TestState" where
  "handleNextQuestion s =
     (case currentQuestion s of
        None \<Rightarrow> Inl TypeError
      | Some q \<Rightarrow>
          (let saved = s\<lparr>results := results s @
                         [\<lparr>questionId = question_id q, isCorrect = isCurrentCorrect s,
                           userAnswer = currentAnswer s\<rparr>]\<rparr>
           in if int (currentIndex s) < int (length (questions s)) - 1
              then Inr (saved\<lparr>currentIndex := currentIndex s + 1, currentAnswer := None,
                                showFeedback := False\<rparr>)
              else Inr (saved\<lparr>isComplete := True\<rparr>)))"

definition handleRestart :: "TestState \<Rightarrow> TestState" where
  "handleRestart s =
     s\<lparr>currentIndex := 0, results := [], currentAnswer := None, showFeedback := False,
       isComplete := False\<rparr>"

text \<open>
  \<^verbatim>\<open>finalScore\<close> and \<^verbatim>\<open>passed\<close> are computed at every render. With no question, the
  quotient of the completed session is no finite number: \<^verbatim>\<open>0 / 0\<close> is NaN, which is not at
  least any threshold, and \<^verbatim>\<open>k / 0\<close> is plus infinity for \<open>k > 0\<close>, which is at least every
  threshold.
\<close>

datatype score = Score number | NotANumber | PlusInfinity

definition finalScore :: "TestState \<Rightarrow> score" where
  "finalScore s =
     (if isComplete s
      then (let correct = length (filter isCorrect (results s))
            in if length (questions s) = 0
               then (if correct = 0 then NotANumber else PlusInfinity)
               else Score (Math_round
                             (fmul (fdiv (of_nat correct) (of_nat (length (questions s))))
                                   100)))
      else Score 0)"

text \<open>\<^verbatim>\<open>node?.pass_score || 70\<close>\<close>

definition pass_threshold :: "TestState \<Rightarrow> number" where
  "pass_threshold s =
     (case node s of
        None \<Rightarrow> 70
      | Some n \<Rightarrow> if truthy (pass_score n) then pass_score n else 70)"

definition passed :: "TestState \<Rightarrow> bool" where
  "passed s =
     (case finalScore s of
        Score f \<Rightarrow> pass_threshold s \<le> f
      | NotANumber \<Rightarrow> False
      | PlusInfinity \<Rightarrow> True)"

text \<open>
  What the page renders, in the order of its early returns. The question view reads
  \<^verbatim>\<open>currentQuestion.type\<close>, so it renders only where there is a current question.
\<close>

datatype screen = LoadingScreen | NoQuestionsScreen | CompletionScreen | QuestionScreen | RenderError

definition screen_of :: "TestState \<Rightarrow> screen" where
  "screen_of s =
     (if isLoading s then LoadingScreen
      else if length (questions s) = 0 then NoQuestionsScreen
      else if isComplete s then CompletionScreen
      else if currentQuestion s = None then RenderError
      else QuestionScreen)"

text \<open>
  The controls of the page. The footer of the question view shows the button
  \<^emph>\<open>Check Answer\<close> (disabled while the answer is \<^verbatim>\<open>null\<close>) until the feedback is shown, and
  the button \<^emph>\<open>Next Question\<close> / \<^emph>\<open>See Results\<close> from then on; the question components
  change the answer only while no feedback is shown; the completion screen has the button
  \<^emph>\<open>Try Again\<close>. \<open>fire s e\<close> is \<open>None\<close> where the control of \<open>e\<close> is not there to be used.
\<close>

datatype event = CheckAnswer | NextQuestion | TryAgain | AnswerChange answer

definition fire :: "TestState \<Rightarrow> event \<Rightarrow> (error + TestState) option" where
  "fire s e =
     (case e of
        CheckAnswer \<Rightarrow>
          if screen_of s = QuestionScreen \<and> \<not> showFeedback s \<and> currentAnswer s \<noteq> None
          then Some (handleSubmitAnswer s) else None
      | NextQuestion \<Rightarrow>
          if screen_of s = QuestionScreen \<and> showFeedback s
          then Some (handleNextQuestion s) else None
      | TryAgain \<Rightarrow>
          if screen_of s = CompletionScreen then Some (Inr (handleRestart s)) else None
      | AnswerChange a \<Rightarrow>
          if screen_of s = QuestionScreen \<and> \<not> showFeedback s
          then Some (Inr (s\<lparr>currentAnswer := Some a\<rparr>)) else None)"

text \<open>
  The state once the questions and the node have been fetched, and a run of events from
  a state: the run stops at the first event whose control is not there or whose handler
  raises.
\<close>

definition loaded :: "Question list \<Rightarrow> PassageNode option \<Rightarrow> TestState" where
  "loaded qs nd =
     \<lparr>node = nd, questions = qs, isLoading = False, currentIndex = 0, results = [],
      isComplete = False, currentAnswer = None, showFeedback = False, isCurrentCorrect = False\<rparr>"

fun fires :: "TestState \<Rightarrow> event list \<Rightarrow> (error + TestState) option" where
  "fires s [] = Some (Inr s)"
| "fires s (e # es) = (case fire s e of Some (Inr s') \<Rightarrow> fires s' es | r \<Rightarrow> r)"

text \<open>
  One result for each question behind the current one, and one for each question once the
  session is complete.
\<close>

definition session_invariant :: "TestState \<Rightarrow> bool" where
  "session_invariant s =
     (if isComplete s then length (results s) = length (questions s)
      else length (results s) = currentIndex s)"

section \<open>The village form\<close>

text \<open>
  A village with the fields the form reads, the values of the form as its schema produces
  them, and the two requests of the form.
\<close>

record Village =
  village_id :: number
  village_title :: string
  village_svg :: "string option"
  village_treasure_capacity :: number
  village_speed_production_treasure :: number
  village_cost :: number
  village_subject :: string

record VillageFormValues =
  form_title :: string
  form_svg :: "string option"
  form_treasure_capacity :: number
  form_speed_production_treasure :: number
  form_cost :: number

text \<open>An absent field of a request is \<open>None\<close>; the \<^verbatim>\<open>svg\<close> of an update can also be \<^verbatim>\<open>null\<close>.\<close>

record VillageCreate =
  create_title :: string
  create_type :: string
  create_subject :: string
  create_svg :: "string option"
  create_treasure_capacity :: "number option"
  create_speed_production_treasure :: "number option"
  create_cost :: "number option"

record VillageUpdate =
  update_title :: "string option"
  update_svg :: "string option option"
  update_treasure_capacity :: "number option"
  update_speed_production_treasure :: "number option"
  update_cost :: "number option"

record VillagesPage =
  villages :: "Village list"
  editingVillage :: "Village option"
  selectedSubject :: string

definition isFirstVillage :: "VillagesPage \<Rightarrow> bool" where
  "isFirstVillage p =
     (case editingVillage p of
        Some v \<Rightarrow> \<not> truthy (village_cost v)
      | None \<Rightarrow> length (villages p) = 0)"

text \<open>The calls of \<^verbatim>\<open>handleSubmit\<close> to the persistence collaborator.\<close>

datatype api_call = updateVillage number VillageUpdate | createVillage VillageCreate

text \<open>\<^verbatim>\<open>s || null\<close> and \<^verbatim>\<open>s || undefined\<close> on an optional string: the empty string is falsy.\<close>

definition or_absent :: "string option \<Rightarrow> string option" where
  "or_absent s = (case s of None \<Rightarrow> None | Some t \<Rightarrow> if t = [] then None else Some t)"

definition handleSubmit :: "VillagesPage \<Rightarrow> VillageFormValues \<Rightarrow> api_call option" where
  "handleSubmit p values =
     (let isFirst = isFirstVillage p;
          cost = (if isFirst then 0 else form_cost values)
      in case editingVillage p of
           Some v \<Rightarrow>
             (let originalSvg = (case village_svg v of None \<Rightarrow> [] | Some t \<Rightarrow> t);
                  updateData =
                    \<lparr>update_title =
                       (if form_title values \<noteq> village_title v
                        then Some (form_title values) else None),
                     update_svg =
                       (if form_svg values \<noteq> Some originalSvg
                        then Some (or_absent (form_svg values)) else None),
                     update_treasure_capacity =
                       (if form_treasure_capacity values \<noteq> village_treasure_capacity v
                        then Some (form_treasure_capacity values) else None),
                     update_speed_production_treasure =
                       (if form_speed_production_treasure values
                           \<noteq> village_speed_production_treasure v
                        then Some (form_speed_production_treasure values) else None),
                     update_cost = (if cost \<noteq> village_cost v then Some cost else None)\<rparr>
              in if update_title updateData \<noteq> None \<or> update_svg updateData \<noteq> None
                    \<or> update_treasure_capacity updateData \<noteq> None
                    \<or> update_speed_production_treasure updateData \<noteq> None
                    \<or> update_cost updateData \<noteq> None
                 then Some (updateVillage (village_id v) updateData)
                 else None)
         | None \<Rightarrow>
             Some (createVillage
                     \<lparr>create_title = form_title values,
                      create_type = ''village'',
                      create_subject = selectedSubject p,
                      create_svg = or_absent (form_svg values),
                      create_treasure_capacity = Some (form_treasure_capacity values),
                      create_speed_production_treasure =
                        Some (form_speed_production_treasure values),
                      create_cost = Some cost\<rparr>))"

text \<open>The \<^verbatim>\<open>cost\<close> field of a request, \<open>None\<close> when the request has none.\<close>

definition cost_sent :: "api_call \<Rightarrow> number option" where
  "cost_sent call =
     (case call of
        updateVillage i u \<Rightarrow> update_cost u
      | createVillage d \<Rightarrow> create_cost d)"

section \<open>The ordering form\<close>

text \<open>
  The two edit operations of \<^verbatim>\<open>OrderingForm\<close> that change \<^verbatim>\<open>correct_order\<close>, and the blank
  ordering content. The identifier of a new item is the letter at the position of the
  item count (\<^verbatim>\<open>String.fromCharCode(65 + value.items.length)\<close>, a code unit below 256 in the
  model).
\<close>

record OrderingItem =
  item_id :: string
  item_content :: string

record OrderingContent =
  items :: "OrderingItem list"
  items_correct_order :: "string list"

definition fromCharCode :: "nat \<Rightarrow> string" where
  "fromCharCode n = [char_of n]"

definition default_ordering :: OrderingContent where
  "default_ordering =
     \<lparr>items = [\<lparr>item_id = ''A'', item_content = []\<rparr>, \<lparr>item_id = ''B'', item_content = []\<rparr>,
               \<lparr>item_id = ''C'', item_content = []\<rparr>],
      items_correct_order = [''A'', ''B'', ''C'']\<rparr>"

definition addItem :: "OrderingContent \<Rightarrow> OrderingContent" where
  "addItem v =
     (let newId = fromCharCode (65 + length (items v))
      in v\<lparr>items := items v @ [\<lparr>item_id = newId, item_content = []\<rparr>],
            items_correct_order := items_correct_order v @ [newId]\<rparr>)"

definition removeItem :: "OrderingContent \<Rightarrow> nat \<Rightarrow> error + OrderingContent" where
  "removeItem v index =
     (if index < length (items v)
      then (let removedId = item_id (items v ! index)
            in Inr (v\<lparr>items := map snd (filter (\<lambda>(i, _). i \<noteq> index) (enumerate 0 (items v))),
                       items_correct_order :=
                         filter (\<lambda>i. i \<noteq> removedId) (items_correct_order v)\<rparr>))
      else Inl TypeError)"

section \<open>Example data\<close>

definition blank_content :: Content where
  "blank_content =
     \<lparr>options = [], error_index = 0, correct_ids_to_remove = [], correct_order = [],
      correct_phrase = [], cards = [], correct_answer = [], pairs = [], target_x = 0,
      target_y = 0, radius = 0, correct_trend = [], correct_value = 0, tolerance = 0\<rparr>"

definition example_question :: "string \<Rightarrow> Content \<Rightarrow> Question" where
  "example_question t c = \<lparr>question_id = 1, node_id = 1, qtype = t, content = c\<rparr>"

text \<open>A session of three trend questions, answered right, right and wrong.\<close>

definition trend_question :: "number \<Rightarrow> Question" where
  "trend_question i =
     \<lparr>question_id = i, node_id = 7, qtype = ''trend_arrow'',
      content = blank_content\<lparr>correct_trend := ''increase''\<rparr>\<rparr>"

definition example_node :: "number \<Rightarrow> PassageNode" where
  "example_node p =
     \<lparr>passage_node_id = 7, passage_id = 1, passage_node_title = ''Trends'',
      passage_node_content = [], order_index = 1, reward_coins = 10, reward_xp = 5,
      pass_score = p, is_boss = False\<rparr>"

definition example_events :: "event list" where
  "example_events =
     [AnswerChange (AString ''increase''), CheckAnswer, NextQuestion,
      AnswerChange (AString ''increase''), CheckAnswer, NextQuestion,
      AnswerChange (AString ''decrease''), CheckAnswer, NextQuestion]"

definition first_answered :: TestState where
  "first_answered =
     \<lparr>node = None, questions = [trend_question 1, trend_question 2, trend_question 3],
      isLoading = False, currentIndex = 0, results = [], isComplete = False,
      currentAnswer = Some (AString ''increase''), showFeedback = True,
      isCurrentCorrect = True\<rparr>"

definition completed :: "PassageNode option \<Rightarrow> TestState" where
  "completed nd =
     \<lparr>node = nd, questions = [trend_question 1, trend_question 2, trend_question 3],
      isLoading = False, currentIndex = 2,
      results = [\<lparr>questionId = 1, isCorrect = True, userAnswer = Some (AString ''increase'')\<rparr>,
                 \<lparr>questionId = 2, isCorrect = True, userAnswer = Some (AString ''increase'')\<rparr>,
                 \<lparr>questionId = 3, isCorrect = False, userAnswer = Some (AString ''decrease'')\<rparr>],
      isComplete = True, currentAnswer = Some (AString ''decrease''), showFeedback = True,
      isCurrentCorrect = False\<rparr>"

text \<open>A village page and a filled form.\<close>

definition example_village :: "number \<Rightarrow> Village" where
  "example_village c =
     \<lparr>village_id = 4, village_title = ''Grammar'', village_svg = None,
      village_treasure_capacity = 300, village_speed_production_treasure = 1,
      village_cost = c, village_subject = ''english''\<rparr>"

definition example_page :: "Village list \<Rightarrow> Village option \<Rightarrow> VillagesPage" where
  "example_page vs e = \<lparr>villages = vs, editingVillage = e, selectedSubject = ''english''\<rparr>"

definition example_values :: "string \<Rightarrow> number \<Rightarrow> VillageFormValues" where
  "example_values t c =
     \<lparr>form_title = t, form_svg = Some [], form_treasure_capacity = 300,
      form_speed_production_treasure = 1, form_cost = c\<rparr>"

section \<open>Grading: the type tag\<close>

text \<open>
  Claim C1 as the specification states it: for a type tag outside the eleven known ones,
  grading signals an error instead of returning \<^verbatim>\<open>false\<close>. The \<^verbatim>\<open>default\<close> branch of
  \<^verbatim>\<open>checkAnswer\<close> returns \<^verbatim>\<open>false\<close>: a question of type \<^verbatim>\<open>essay\<close> is graded \<open>Inr False\<close>, no
  error.
\<close>

theorem unknown_type_counterexample:
  "qtype (example_question ''essay'' blank_content) \<notin> set known_types \<and>
   checkAnswer (example_question ''essay'' blank_content) (AString ''x'') = Inr False"
  by (simp add: example_question_def known_types_def checkAnswer_def)

text \<open>
  Claim C1, amended: for every question whose type tag is not one of the eleven known
  question types, and for every answer, grading returns the boolean \<^verbatim>\<open>false\<close> and signals
  no error.
\<close>

theorem unknown_type_grades_false:
  "qtype q \<notin> set known_types \<Longrightarrow> checkAnswer q a = Inr False"
  by (simp add: known_types_def checkAnswer_def)

theorem unknown_type_grades_false_witness:
  "qtype (example_question ''true_false'' blank_content) \<notin> set known_types \<and>
   checkAnswer (example_question ''true_false'' blank_content) (ANumber 1) = Inr False"
  using unknown_type_grades_false [of "example_question ''true_false'' blank_content" "ANumber 1"]
  by (simp add: example_question_def known_types_def)

section \<open>Grading: highlight\<close>

lemma string_includes_iff: "string_includes s t \<longleftrightarrow> (\<exists>p r. s = p @ t @ r)"
proof -
  have "string_includes s t \<longleftrightarrow> sublist t s"
    by (induction s) (auto simp: sublist_Cons_right)
  then show ?thesis
    by (simp add: sublist_def)
qed

text \<open>The case folding, on the capitals of the model's range and on every other code unit.\<close>

lemma char_eq_char_of: "c = char_of (n::nat) \<longleftrightarrow> take_bit 8 n = (of_char c :: nat)"
  using char_of_eq_iff [of n c] by auto

lemma toLowerCase_alphabet:
  "toLowerCase ''ABCDEFGHIJKLMNOPQRSTUVWXYZ'' = ''abcdefghijklmnopqrstuvwxyz''"
  by (simp add: toLowerCase_def lower_char_def char_of_eq_iff)

lemma toLowerCase_latin1:
  "toLowerCase (map char_of ([192..<215] @ [216..<223]))
     = map char_of ([224..<247] @ [248..<255])"
  by (simp add: toLowerCase_def lower_char_def upt_rec_numeral)

lemma toLowerCase_other:
  "(of_char c :: nat) \<notin> {65..90} \<union> {192..214} \<union> {216..222} \<Longrightarrow> toLowerCase [c] = [c]"
  by (auto simp: toLowerCase_def lower_char_def Let_def)

text \<open>
  Claim C3: for every highlight question and every string answer, grading returns true
  iff, after case-folding both strings, the answer contains the phrase as a substring or the
  phrase contains the answer as a substring. The case folding maps the capitals \<open>A\<close> to \<open>Z\<close>
  and U+00C0 to U+00DE (without U+00D7) to their small letters and changes no other code
  unit. (The equivalence needs no assumption on the phrase; for the empty phrase see C9.)
\<close>

theorem highlight_symmetric_containment:
  "qtype q = ''highlight'' \<Longrightarrow>
   checkAnswer q (AString a) =
     Inr ((\<exists>p r. toLowerCase a = p @ toLowerCase (correct_phrase (content q)) @ r) \<or>
          (\<exists>p r. toLowerCase (correct_phrase (content q)) = p @ toLowerCase a @ r)) \<and>
   toLowerCase ''ABCDEFGHIJKLMNOPQRSTUVWXYZ'' = ''abcdefghijklmnopqrstuvwxyz'' \<and>
   toLowerCase (map char_of ([192..<215] @ [216..<223]))
     = map char_of ([224..<247] @ [248..<255]) \<and>
   (\<forall>c. (of_char c :: nat) \<notin> {65..90} \<union> {192..214} \<union> {216..222}
          \<longrightarrow> toLowerCase [c] = [c])"
  using toLowerCase_alphabet toLowerCase_latin1 toLowerCase_other
  by (simp add: checkAnswer_def string_includes_iff Let_def)

text \<open>
  The two examples of the claim, phrase \<^verbatim>\<open>dog\<close>: the answer \<^verbatim>\<open>the dog ran\<close> is graded
  true and the answer \<^verbatim>\<open>cat\<close> false. The case does not matter: against the phrase \<^verbatim>\<open>Dog\<close>
  the answer \<^verbatim>\<open>The DOG ran\<close> is graded true and \<^verbatim>\<open>CAT\<close> false, and against the phrase
  U+00C9 (capital e with acute accent) the answer U+00E9 (the small letter) is graded true.
\<close>

theorem highlight_symmetric_containment_witness:
  "qtype (example_question ''highlight'' (blank_content\<lparr>correct_phrase := ''dog''\<rparr>))
     = ''highlight'' \<and>
   checkAnswer (example_question ''highlight'' (blank_content\<lparr>correct_phrase := ''dog''\<rparr>))
     (AString ''the dog ran'') = Inr True \<and>
   checkAnswer (example_question ''highlight'' (blank_content\<lparr>correct_phrase := ''dog''\<rparr>))
     (AString ''cat'') = Inr False \<and>
   checkAnswer (example_question ''highlight'' (blank_content\<lparr>correct_phrase := ''Dog''\<rparr>))
     (AString ''The DOG ran'') = Inr True \<and>
   checkAnswer (example_question ''highlight'' (blank_content\<lparr>correct_phrase := ''Dog''\<rparr>))
     (AString ''CAT'') = Inr False \<and>
   checkAnswer (example_question ''highlight'' (blank_content\<lparr>correct_phrase := [CHR 0xC9]\<rparr>))
     (AString [CHR 0xE9]) = Inr True"
  using highlight_symmetric_containment
    [of "example_question ''highlight'' (blank_content\<lparr>correct_phrase := ''Dog''\<rparr>)"
        "''The DOG ran''"]
  by (simp add: checkAnswer_def example_question_def blank_content_def toLowerCase_def
      lower_char_def char_of_eq_iff char_eq_char_of)

text \<open>
  Claim C9: for every highlight question, grading the empty string returns true, the
  empty string being a substring of every phrase.
\<close>

theorem highlight_empty_answer:
  "qtype q = ''highlight'' \<Longrightarrow> checkAnswer q (AString []) = Inr True"
  by (cases "toLowerCase (correct_phrase (content q))")
     (simp_all add: checkAnswer_def Let_def toLowerCase_def)

theorem highlight_empty_answer_witness:
  "qtype (example_question ''highlight'' (blank_content\<lparr>correct_phrase := ''Dog''\<rparr>))
     = ''highlight'' \<and>
   checkAnswer (example_question ''highlight'' (blank_content\<lparr>correct_phrase := ''Dog''\<rparr>))
     (AString []) = Inr True"
  using highlight_empty_answer
    [of "example_question ''highlight'' (blank_content\<lparr>correct_phrase := ''Dog''\<rparr>)"]
  by (simp add: example_question_def)

section \<open>Grading: strike-out\<close>

lemma set_foldl_Set_add: "set (foldl Set_add s xs) = set s \<union> set xs"
  by (induction xs arbitrary: s) (auto simp: Set_add_def)

lemma distinct_foldl_Set_add: "distinct s \<Longrightarrow> distinct (foldl Set_add s xs)"
  by (induction xs arbitrary: s) (auto simp: Set_add_def)

lemma set_new_Set: "set (new_Set xs) = set xs"
  by (simp add: new_Set_def set_foldl_Set_add)

lemma distinct_new_Set: "distinct (new_Set xs)"
  by (simp add: new_Set_def distinct_foldl_Set_add)

lemma length_new_Set: "length (new_Set xs) = card (set xs)"
  using distinct_card [OF distinct_new_Set, of xs] by (simp add: set_new_Set)

lemma strike_out_grade:
  assumes "qtype q = ''strike_out''" and "distinct xs"
  shows "checkAnswer q (ANumberSet xs) =
           Inr (card (set xs) = card (set (correct_ids_to_remove (content q))) \<and>
                set xs \<subseteq> set (correct_ids_to_remove (content q)))"
  using assms
  by (auto simp: checkAnswer_def Let_def length_new_Set Set_has_def set_new_Set list_all_iff
      Set_size_def distinct_card)

text \<open>
  Claim C4: the grade of a strike-out question does not depend on the order in which the
  answer enumerates its indices. For two enumerations \<open>xs\<close> and \<open>ys\<close> of the same set (a
  \<^verbatim>\<open>Set\<close> holds each member once) the grades are equal, and the grade is true iff the answer
  has as many members as \<^verbatim>\<open>correct_ids_to_remove\<close> seen as a set and each of them is in that
  set.
\<close>

theorem strike_out_order_independent:
  assumes "qtype q = ''strike_out''" and "distinct xs" and "distinct ys" and "set xs = set ys"
  shows "checkAnswer q (ANumberSet xs) = checkAnswer q (ANumberSet ys) \<and>
         checkAnswer q (ANumberSet xs) =
           Inr (card (set xs) = card (set (correct_ids_to_remove (content q))) \<and>
                set xs \<subseteq> set (correct_ids_to_remove (content q)))"
  using assms strike_out_grade [of q xs] strike_out_grade [of q ys] by simp

text \<open>The example of the specification: \<open>{1, 3}\<close> and \<open>{3, 1}\<close> against \<open>[1, 3]\<close>.\<close>

theorem strike_out_order_independent_witness:
  "checkAnswer (example_question ''strike_out'' (blank_content\<lparr>correct_ids_to_remove := [1, 3]\<rparr>))
     (ANumberSet [3, 1])
   = checkAnswer (example_question ''strike_out'' (blank_content\<lparr>correct_ids_to_remove := [1, 3]\<rparr>))
     (ANumberSet [1, 3]) \<and>
   checkAnswer (example_question ''strike_out'' (blank_content\<lparr>correct_ids_to_remove := [1, 3]\<rparr>))
     (ANumberSet [3, 1]) = Inr True"
  using strike_out_order_independent
    [of "example_question ''strike_out'' (blank_content\<lparr>correct_ids_to_remove := [1, 3]\<rparr>)"
        "[3, 1]" "[1, 3]"]
  by (simp add: example_question_def blank_content_def checkAnswer_def new_Set_def Set_add_def
      Set_size_def Set_has_def)

section \<open>Rounding to a double\<close>

lemma round_half_even_error: "\<bar>of_int (round_half_even t) - t\<bar> \<le> 1 / 2"
  unfolding round_half_even_def Let_def by (auto simp: abs_le_iff)

lemma round_half_even_of_int: "round_half_even (of_int z) = z"
  by (simp add: round_half_even_def)

lemma expo_lower:
  assumes "x \<noteq> 0"
  shows "2 powi expo x \<le> \<bar>x\<bar>"
proof (cases "1 \<le> \<bar>x\<bar>")
  case True
  define m where "m = \<lfloor>\<bar>x\<bar>\<rfloor>"
  have m: "0 < m" using True by (simp add: m_def)
  have e: "expo x = bitlen m - 1" using True by (simp add: expo_def m_def)
  have b: "0 \<le> bitlen m - 1" using m by (simp add: bitlen_alt_def)
  have "(2::int) ^ nat (bitlen m - 1) \<le> m" using bitlen_bounds [OF m] by simp
  then have "(2::real) ^ nat (bitlen m - 1) \<le> of_int m"
    by (metis of_int_le_iff of_int_numeral of_int_power)
  also have "\<dots> \<le> \<bar>x\<bar>" by (simp add: m_def)
  finally show ?thesis using b by (simp add: e power_int_def)
next
  case False
  define r where "r = \<lceil>1 / \<bar>x\<bar>\<rceil>"
  have x: "0 < \<bar>x\<bar>" "\<bar>x\<bar> < 1" using assms False by auto
  then have "1 < 1 / \<bar>x\<bar>" by simp
  then have r: "0 < r - 1" unfolding r_def by linarith
  have e: "expo x = - bitlen (r - 1)" using False by (simp add: expo_def r_def)
  have b: "0 \<le> bitlen (r - 1)" by (rule bitlen_nonneg)
  have "r - 1 < 2 ^ nat (bitlen (r - 1))" using bitlen_bounds [OF r] by simp
  then have "r \<le> 2 ^ nat (bitlen (r - 1))" by simp
  then have "(of_int r :: real) \<le> 2 ^ nat (bitlen (r - 1))"
    by (metis of_int_le_iff of_int_numeral of_int_power)
  moreover have "1 / \<bar>x\<bar> \<le> of_int r" by (simp add: r_def)
  ultimately have "1 / \<bar>x\<bar> \<le> 2 ^ nat (bitlen (r - 1))" by linarith
  then have "1 \<le> 2 ^ nat (bitlen (r - 1)) * \<bar>x\<bar>"
    using x by (simp add: field_simps)
  then have "inverse (2 ^ nat (bitlen (r - 1))) \<le> \<bar>x\<bar>"
    by (simp add: field_simps)
  moreover have "expo x = - int (nat (bitlen (r - 1)))" using b by (simp add: e)
  ultimately show ?thesis by (simp only: power_int_minus power_int_of_nat)
qed

lemma expo_upper:
  assumes "x \<noteq> 0"
  shows "\<bar>x\<bar> < 2 powi (expo x + 1)"
proof (cases "1 \<le> \<bar>x\<bar>")
  case True
  define m where "m = \<lfloor>\<bar>x\<bar>\<rfloor>"
  have m: "0 < m" using True by (simp add: m_def)
  have e: "expo x = bitlen m - 1" using True by (simp add: expo_def m_def)
  have b: "0 \<le> bitlen m" by (rule bitlen_nonneg)
  have "m < 2 ^ nat (bitlen m)" using bitlen_bounds [OF m] by simp
  then have "m + 1 \<le> 2 ^ nat (bitlen m)" by simp
  then have "(of_int (m + 1) :: real) \<le> 2 ^ nat (bitlen m)"
    by (metis of_int_le_iff of_int_numeral of_int_power)
  moreover have "\<bar>x\<bar> < of_int (m + 1)" unfolding m_def by linarith
  ultimately have "\<bar>x\<bar> < 2 ^ nat (bitlen m)" by linarith
  then show ?thesis using b by (simp add: e power_int_def)
next
  case False
  define r where "r = \<lceil>1 / \<bar>x\<bar>\<rceil>"
  have x: "0 < \<bar>x\<bar>" "\<bar>x\<bar> < 1" using assms False by auto
  then have "1 < 1 / \<bar>x\<bar>" by simp
  then have r: "0 < r - 1" unfolding r_def by linarith
  have e: "expo x = - bitlen (r - 1)" using False by (simp add: expo_def r_def)
  have b: "1 \<le> bitlen (r - 1)" using r by (simp add: bitlen_alt_def)
  have "2 ^ nat (bitlen (r - 1) - 1) \<le> r - 1" using bitlen_bounds [OF r] by simp
  then have "(2::real) ^ nat (bitlen (r - 1) - 1) \<le> of_int (r - 1)"
    by (metis of_int_le_iff of_int_numeral of_int_power)
  moreover have "of_int (r - 1) < 1 / \<bar>x\<bar>" unfolding r_def by linarith
  ultimately have "2 ^ nat (bitlen (r - 1) - 1) < 1 / \<bar>x\<bar>" by linarith
  then have "2 ^ nat (bitlen (r - 1) - 1) * \<bar>x\<bar> < 1"
    using x by (simp add: field_simps)
  then have "\<bar>x\<bar> < inverse (2 ^ nat (bitlen (r - 1) - 1))"
    by (simp add: field_simps)
  moreover have "expo x + 1 = - int (nat (bitlen (r - 1) - 1))" using b by (simp add: e)
  ultimately show ?thesis by (simp only: power_int_minus power_int_of_nat)
qed

text \<open>The relative error of a rounding is at most \<open>2\<^sup>-\<^sup>5\<^sup>3\<close>.\<close>

lemma fl_error: "\<bar>fl x - x\<bar> \<le> \<bar>x\<bar> / 2 ^ 53"
proof (cases "x = 0")
  case True
  then show ?thesis by (simp add: fl_def)
next
  case False
  define s :: real where "s = 2 powi (expo x - 52)"
  have s: "0 < s" by (simp add: s_def)
  have "fl x - x = (of_int (round_half_even (x / s)) - x / s) * s"
    using False s by (simp add: fl_def s_def Let_def field_simps)
  then have "\<bar>fl x - x\<bar> = \<bar>of_int (round_half_even (x / s)) - x / s\<bar> * s"
    using s by (simp add: abs_mult)
  also have "\<dots> \<le> (1 / 2) * s"
    using round_half_even_error [of "x / s"] s by (intro mult_right_mono) auto
  also have "(1 / 2) * s = 2 powi expo x / 2 ^ 53"
    by (simp add: s_def power_int_diff)
  also have "\<dots> \<le> \<bar>x\<bar> / 2 ^ 53"
    using expo_lower [OF False] by (simp add: divide_right_mono)
  finally show ?thesis .
qed

text \<open>An integer below \<open>2\<^sup>5\<^sup>3\<close> in absolute value is a double.\<close>

lemma fl_of_int:
  assumes "\<bar>i\<bar> < 2 ^ 53"
  shows "fl (of_int i) = of_int i"
proof (cases "i = 0")
  case True
  then show ?thesis by (simp add: fl_def)
next
  case False
  define e where "e = expo (of_int i)"
  have lo: "2 powi e \<le> \<bar>of_int i :: real\<bar>"
    unfolding e_def using False by (intro expo_lower) simp
  have e52: "e \<le> 52"
  proof (rule ccontr)
    assume "\<not> e \<le> 52"
    then have "53 \<le> e" by simp
    then have "(2::real) powi 53 \<le> 2 powi e" by (intro power_int_increasing) auto
    with lo have "(2::real) ^ 53 \<le> \<bar>of_int i\<bar>" by simp
    then have "(2::int) ^ 53 \<le> \<bar>i\<bar>"
      by (metis of_int_abs of_int_le_iff of_int_numeral of_int_power)
    with assms show False by simp
  qed
  define n where "n = nat (52 - e)"
  have en: "e - 52 = - int n" using e52 by (simp add: n_def)
  have s: "(2::real) powi (e - 52) = inverse (2 ^ n)"
    by (simp only: en power_int_minus power_int_of_nat)
  have "of_int i / inverse ((2::real) ^ n) = of_int (i * 2 ^ n)"
    by (simp add: field_simps)
  then have "round_half_even (of_int i / inverse ((2::real) ^ n)) = i * 2 ^ n"
    by (simp only: round_half_even_of_int)
  then have "fl (of_int i) = of_int (i * 2 ^ n) * inverse (2 ^ n)"
    using False by (simp add: fl_def Let_def s e_def [symmetric])
  then show ?thesis by simp
qed

lemma fsub_exact:
  assumes "a \<in> \<int>" and "b \<in> \<int>" and "\<bar>a - b\<bar> < 2 ^ 53"
  shows "fsub a b = a - b"
proof -
  from assms obtain i j where "a = of_int i" "b = of_int j" by (auto elim!: Ints_cases)
  then have "a - b = of_int (i - j)" by simp
  moreover from this assms(3) have "\<bar>i - j\<bar> < 2 ^ 53"
    by (metis of_int_abs of_int_less_iff of_int_numeral of_int_power)
  ultimately show ?thesis by (simp only: fsub_def fl_of_int)
qed

text \<open>Two roundings as computed: one tenth, and the quotient and product of a score.\<close>

lemma fl_one_tenth: "fl (1 / 10) = 3602879701896397 / 36028797018963968"
  by code_simp

lemma score_23_of_40:
  "Math_round (fmul (fdiv 23 40) 100) = 57 \<and> \<lfloor>100 * 23 / 40 + 1 / 2 :: real\<rfloor> = 58"
  by code_simp

section \<open>Grading: ordering\<close>

lemma hex_digit_inj: "a < 16 \<Longrightarrow> b < 16 \<Longrightarrow> hex_digit a = hex_digit b \<Longrightarrow> a = b"
  unfolding hex_digit_def
  by (subst (asm) nth_eq_iff_index_eq) simp_all

text \<open>The escapes form a prefix code, and none of them starts with a quotation mark.\<close>

lemma JSON_escape_inj:
  assumes "JSON_escape c @ r = JSON_escape d @ r'"
  shows "c = d \<and> r = r'"
proof -
  have u: "c = d" if "(of_char c :: nat) < 32" "(of_char d :: nat) < 32"
    "hex_digit (of_char c div 16) = hex_digit (of_char d div 16)"
    "hex_digit (of_char c mod 16) = hex_digit (of_char d mod 16)"
  proof -
    have "(of_char c :: nat) div 16 = of_char d div 16"
      using that by (intro hex_digit_inj) auto
    moreover have "(of_char c :: nat) mod 16 = of_char d mod 16"
      using that by (intro hex_digit_inj) auto
    ultimately have "(of_char c :: nat) = of_char d"
      by (metis div_mult_mod_eq)
    then show ?thesis by simp
  qed
  show ?thesis
    using assms u
    by (auto simp: JSON_escape_def split: if_splits)
qed

lemma JSON_escape_no_quote: "JSON_escape c @ r \<noteq> CHR 0x22 # r'"
  by (simp add: JSON_escape_def)

lemma JSON_body_inj:
  "concat (map JSON_escape s) @ CHR 0x22 # r = concat (map JSON_escape t) @ CHR 0x22 # r'
   \<Longrightarrow> s = t \<and> r = r'"
proof (induction s arbitrary: t)
  case Nil
  show ?case
  proof (cases t)
    case Nil
    with Nil.prems show ?thesis by simp
  next
    case (Cons d t')
    with Nil.prems
    have "JSON_escape d @ (concat (map JSON_escape t') @ CHR 0x22 # r') = CHR 0x22 # r"
      by simp
    with JSON_escape_no_quote show ?thesis by blast
  qed
next
  case (Cons c s)
  show ?case
  proof (cases t)
    case Nil
    with Cons.prems
    have "JSON_escape c @ (concat (map JSON_escape s) @ CHR 0x22 # r) = CHR 0x22 # r'"
      by simp
    with JSON_escape_no_quote show ?thesis by blast
  next
    case (Cons d t')
    with Cons.prems
    have "JSON_escape c @ (concat (map JSON_escape s) @ CHR 0x22 # r)
        = JSON_escape d @ (concat (map JSON_escape t') @ CHR 0x22 # r')"
      by simp
    then have "c = d" and "concat (map JSON_escape s) @ CHR 0x22 # r
        = concat (map JSON_escape t') @ CHR 0x22 # r'"
      using JSON_escape_inj by blast+
    with Cons.IH [of t'] Cons show ?thesis by simp
  qed
qed

lemma JSON_quote_inj: "JSON_quote s @ r = JSON_quote t @ r' \<Longrightarrow> s = t \<and> r = r'"
  using JSON_body_inj [of s r t r'] by (simp add: JSON_quote_def)

lemma JSON_elements_inj: "JSON_elements xs = JSON_elements ys \<Longrightarrow> xs = ys"
proof (induction xs arbitrary: ys rule: JSON_elements.induct)
  case 1
  then show ?case
    by (cases ys rule: JSON_elements.cases) (auto simp: JSON_quote_def)
next
  case (2 x)
  show ?case
  proof (cases ys rule: JSON_elements.cases)
    case 1
    with 2 show ?thesis by (auto simp: JSON_quote_def)
  next
    case (2 y)
    with "2.prems" JSON_quote_inj [of x "'']''" y "'']''"] show ?thesis by simp
  next
    case (3 y z zs)
    with "2.prems" JSON_quote_inj [of x "'']''" y "CHR '','' # JSON_elements (z # zs)"]
    show ?thesis by simp
  qed
next
  case (3 x y zs)
  show ?case
  proof (cases ys rule: JSON_elements.cases)
    case 1
    with 3 show ?thesis by (auto simp: JSON_quote_def)
  next
    case (2 v)
    with "3.prems" JSON_quote_inj [of x "CHR '','' # JSON_elements (y # zs)" v "'']''"]
    show ?thesis by simp
  next
    case (3 v w ws)
    with "3.prems"
      JSON_quote_inj [of x "CHR '','' # JSON_elements (y # zs)" v
                         "CHR '','' # JSON_elements (w # ws)"]
    have "x = v" "JSON_elements (y # zs) = JSON_elements (w # ws)" by simp_all
    with "3.IH" [of "w # ws"] 3 show ?thesis by simp
  qed
qed

text \<open>Two arrays of strings have the same JSON text only if they are the same array.\<close>

lemma JSON_stringify_inj: "JSON_stringify xs = JSON_stringify ys \<longleftrightarrow> xs = ys"
  by (auto simp: JSON_stringify_def dest: JSON_elements_inj)

lemma JSON_stringify_example:
  "JSON_stringify [''a'', [CHR 0x22, CHR 0x0A]] =
     [CHR ''['', CHR 0x22, CHR ''a'', CHR 0x22, CHR '','',
      CHR 0x22, CHR 0x5C, CHR 0x22, CHR 0x5C, CHR ''n'', CHR 0x22, CHR '']'']"
  by (simp add: JSON_stringify_def JSON_quote_def JSON_escape_def)

text \<open>
  The ordering form reaches a \<^verbatim>\<open>correct_order\<close> that names an identifier twice: removing the
  first of the three blank items and adding an item gives the identifiers \<open>B\<close>, \<open>C\<close>, \<open>C\<close>.
\<close>

lemma ordering_form_repeats_identifier:
  "map_sum id (items_correct_order \<circ> addItem) (removeItem default_ordering 0)
     = Inr [''B'', ''C'', ''C'']"
  by code_simp

text \<open>
  Claim C5 as the specification states it: swapping any two positions of a correct answer
  gives an answer graded false. Against the \<^verbatim>\<open>correct_order\<close> \<open>B\<close>, \<open>C\<close>, \<open>C\<close>, the correct
  answer with its positions 1 and 2 swapped is graded true: the two positions hold the same
  identifier.
\<close>

theorem ordering_transposition_counterexample:
  "checkAnswer
     (example_question ''ordering'' (blank_content\<lparr>correct_order := [''B'', ''C'', ''C'']\<rparr>))
     (AStringArray ([''B'', ''C'', ''C'']
        [1 := [''B'', ''C'', ''C''] ! 2, 2 := [''B'', ''C'', ''C''] ! 1])) = Inr True"
  by (simp add: checkAnswer_def example_question_def blank_content_def)

text \<open>
  Claim C5, amended: for every ordering question, grading returns true iff the answer
  sequence of item ids is element-wise equal to \<^verbatim>\<open>correct_order\<close>; moreover, swapping two
  positions of a correct answer that hold different item ids yields an answer that grades
  false.
\<close>

theorem ordering_elementwise:
  assumes "qtype q = ''ordering''"
  shows "checkAnswer q (AStringArray xs) = Inr (xs = correct_order (content q)) \<and>
         (\<forall>i j. i < length (correct_order (content q)) \<and> j < length (correct_order (content q)) \<and>
                correct_order (content q) ! i \<noteq> correct_order (content q) ! j \<longrightarrow>
                checkAnswer q
                  (AStringArray ((correct_order (content q))
                     [i := correct_order (content q) ! j, j := correct_order (content q) ! i]))
                  = Inr False)"
proof -
  define co where "co = correct_order (content q)"
  have grade: "checkAnswer q (AStringArray ys) = Inr (ys = co)" for ys
    using assms by (simp add: checkAnswer_def JSON_stringify_inj co_def)
  have "co[i := co ! j, j := co ! i] \<noteq> co"
    if "i < length co" "j < length co" "co ! i \<noteq> co ! j" for i j
  proof
    assume eq: "co[i := co ! j, j := co ! i] = co"
    from that have "i \<noteq> j" by auto
    with that have "co[i := co ! j, j := co ! i] ! i = co ! j" by simp
    with eq that show False by simp
  qed
  with grade show ?thesis unfolding co_def by simp
qed

text \<open>
  Against \<open>A\<close>, \<open>B\<close>, \<open>C\<close> the same sequence is graded true, and the sequence with its first
  two positions swapped is graded false.
\<close>

theorem ordering_elementwise_witness:
  "qtype (example_question ''ordering'' (blank_content\<lparr>correct_order := [''A'', ''B'', ''C'']\<rparr>))
     = ''ordering'' \<and>
   checkAnswer
     (example_question ''ordering'' (blank_content\<lparr>correct_order := [''A'', ''B'', ''C'']\<rparr>))
     (AStringArray [''A'', ''B'', ''C'']) = Inr True \<and>
   checkAnswer
     (example_question ''ordering'' (blank_content\<lparr>correct_order := [''A'', ''B'', ''C'']\<rparr>))
     (AStringArray ([''A'', ''B'', ''C''][0 := ''B'', 1 := ''A''])) = Inr False"
  using
    ordering_elementwise
      [of "example_question ''ordering'' (blank_content\<lparr>correct_order := [''A'', ''B'', ''C'']\<rparr>)"
          "[''A'', ''B'', ''C'']"]
    ordering_elementwise
      [of "example_question ''ordering'' (blank_content\<lparr>correct_order := [''A'', ''B'', ''C'']\<rparr>)"
          "[''B'', ''A'', ''C'']"]
  by (simp add: example_question_def blank_content_def)

section \<open>Grading: slider value\<close>

text \<open>
  Claim C6: for every slider question and every numeric answer, grading returns true iff
  the absolute difference between the answer and \<^verbatim>\<open>correct_value\<close> is at most \<^verbatim>\<open>tolerance\<close>,
  the boundary included. The difference is the one the subtraction of the source computes,
  a double; it is the exact difference wherever that is a double, in particular for integer
  values.
\<close>

theorem slider_tolerance_inclusive:
  assumes "qtype q = ''slider_value''"
  shows "checkAnswer q (ANumber a) =
           Inr (\<bar>fsub a (correct_value (content q))\<bar> \<le> tolerance (content q)) \<and>
         (a \<in> \<int> \<and> correct_value (content q) \<in> \<int> \<and> \<bar>a - correct_value (content q)\<bar> < 2 ^ 53
            \<longrightarrow> checkAnswer q (ANumber a) =
                   Inr (\<bar>a - correct_value (content q)\<bar> \<le> tolerance (content q)))"
  using assms by (simp add: checkAnswer_def Let_def fsub_exact)

text \<open>The example of the claim: value 50 and tolerance 5; 45 is graded true, 44 false.\<close>

theorem slider_tolerance_inclusive_witness:
  "qtype (example_question ''slider_value''
            (blank_content\<lparr>correct_value := 50, tolerance := 5\<rparr>)) = ''slider_value'' \<and>
   checkAnswer (example_question ''slider_value''
                  (blank_content\<lparr>correct_value := 50, tolerance := 5\<rparr>)) (ANumber 45)
     = Inr True \<and>
   checkAnswer (example_question ''slider_value''
                  (blank_content\<lparr>correct_value := 50, tolerance := 5\<rparr>)) (ANumber 44)
     = Inr False"
proof -
  let ?q = "example_question ''slider_value'' (blank_content\<lparr>correct_value := 50, tolerance := 5\<rparr>)"
  have q: "qtype ?q = ''slider_value''"
    by (simp add: example_question_def)
  have c: "correct_value (content ?q) = 50" "tolerance (content ?q) = 5"
    by (simp_all add: example_question_def blank_content_def)
  from slider_tolerance_inclusive [OF q, of 45, THEN conjunct2]
  have "checkAnswer ?q (ANumber 45) = Inr True" by (simp add: c)
  moreover from slider_tolerance_inclusive [OF q, of 44, THEN conjunct2]
  have "checkAnswer ?q (ANumber 44) = Inr False" by (simp add: c)
  ultimately show ?thesis using q by simp
qed

section \<open>The test session: advancing\<close>

lemma session_invariant_loaded: "session_invariant (loaded qs nd)"
  by (simp add: session_invariant_def loaded_def)

lemma session_invariant_fire:
  "session_invariant s \<Longrightarrow> fire s e = Some (Inr s') \<Longrightarrow> session_invariant s'"
  by (cases e)
     (auto simp: fire_def session_invariant_def handleSubmitAnswer_def handleNextQuestion_def
        handleRestart_def screen_of_def currentQuestion_def Let_def
        split: if_splits option.splits sum.splits)

lemma session_invariant_fires:
  "fires s es = Some (Inr s') \<Longrightarrow> session_invariant s \<Longrightarrow> session_invariant s'"
  by (induction es arbitrary: s)
     (auto split: option.splits sum.splits dest: session_invariant_fire)

text \<open>The example session runs from the loaded page to its completion screen.\<close>

lemma example_session_runs:
  "fires (loaded [trend_question 1, trend_question 2, trend_question 3] nd) example_events
     = Some (Inr (completed nd))"
  by (simp add: example_events_def loaded_def completed_def fire_def screen_of_def
      currentQuestion_def handleSubmitAnswer_def handleNextQuestion_def checkAnswer_def
      trend_question_def blank_content_def)

text \<open>
  Claim C7: in every state that shows a question, advancing is possible exactly when the
  feedback is shown; it appends one record of the current question, its correctness and
  the answer to the results, and then completes the session when the current index is the
  last one, and otherwise moves to the next index with the answer \<^verbatim>\<open>null\<close> and no feedback
  shown.
\<close>

theorem advance_transition:
  assumes "screen_of s = QuestionScreen"
  shows "(fire s NextQuestion \<noteq> None \<longleftrightarrow> showFeedback s) \<and>
         (showFeedback s \<longrightarrow>
            (\<exists>q. currentQuestion s = Some q \<and>
                 fire s NextQuestion =
                   Some (Inr
                     (if currentIndex s = length (questions s) - 1
                      then s\<lparr>results := results s @
                                [\<lparr>questionId = question_id q, isCorrect = isCurrentCorrect s,
                                  userAnswer = currentAnswer s\<rparr>],
                              isComplete := True\<rparr>
                      else s\<lparr>results := results s @
                                [\<lparr>questionId = question_id q, isCorrect = isCurrentCorrect s,
                                  userAnswer = currentAnswer s\<rparr>],
                              currentIndex := currentIndex s + 1, currentAnswer := None,
                              showFeedback := False\<rparr>))))"
  using assms
  by (auto simp: fire_def screen_of_def handleNextQuestion_def currentQuestion_def Let_def
      split: if_splits)

text \<open>
  After the first of three answers, and after the only answer of a session of one question;
  before the feedback there is nothing to advance with.
\<close>

theorem advance_transition_witness:
  "screen_of first_answered = QuestionScreen \<and>
   fire first_answered NextQuestion =
     Some (Inr (first_answered
       \<lparr>results := [\<lparr>questionId = 1, isCorrect = True, userAnswer = Some (AString ''increase'')\<rparr>],
        currentIndex := 1, currentAnswer := None, showFeedback := False\<rparr>)) \<and>
   fire (first_answered\<lparr>questions := [trend_question 1]\<rparr>) NextQuestion =
     Some (Inr (first_answered
       \<lparr>questions := [trend_question 1],
        results := [\<lparr>questionId = 1, isCorrect = True, userAnswer = Some (AString ''increase'')\<rparr>],
        isComplete := True\<rparr>)) \<and>
   fire (first_answered\<lparr>showFeedback := False\<rparr>) NextQuestion = None"
proof -
  have 1: "screen_of first_answered = QuestionScreen"
    and 2: "screen_of (first_answered\<lparr>questions := [trend_question 1]\<rparr>) = QuestionScreen"
    and 3: "screen_of (first_answered\<lparr>showFeedback := False\<rparr>) = QuestionScreen"
    by (simp_all add: screen_of_def first_answered_def currentQuestion_def)
  from advance_transition [OF 1]
  have "fire first_answered NextQuestion =
     Some (Inr (first_answered
       \<lparr>results := [\<lparr>questionId = 1, isCorrect = True, userAnswer = Some (AString ''increase'')\<rparr>],
        currentIndex := 1, currentAnswer := None, showFeedback := False\<rparr>))"
    by (simp add: first_answered_def currentQuestion_def trend_question_def)
  moreover from advance_transition [OF 2]
  have "fire (first_answered\<lparr>questions := [trend_question 1]\<rparr>) NextQuestion =
     Some (Inr (first_answered
       \<lparr>questions := [trend_question 1],
        results := [\<lparr>questionId = 1, isCorrect = True, userAnswer = Some (AString ''increase'')\<rparr>],
        isComplete := True\<rparr>))"
    by (simp add: first_answered_def currentQuestion_def trend_question_def)
  moreover from advance_transition [OF 3]
  have "fire (first_answered\<lparr>showFeedback := False\<rparr>) NextQuestion = None"
    by (simp add: first_answered_def)
  ultimately show ?thesis using 1 by simp
qed

section \<open>The test session: score and pass\<close>

text \<open>
  A value within \<open>1 / (2 n)\<close> of the exact percentage \<open>100 k / n\<close> rounds to the same integer
  as the percentage, unless the percentage lies half-way between two integers.
\<close>

lemma floor_half_stable:
  fixes k n :: nat and p :: real
  assumes n: "0 < n" and nh: "(200 * k + n) mod (2 * n) \<noteq> 0"
    and close: "\<bar>p - 100 * real k / real n\<bar> < 1 / (2 * real n)"
  shows "\<lfloor>p + 1 / 2\<rfloor> = int ((200 * k + n) div (2 * n))"
proof -
  define N where "N = 200 * k + n"
  define D where "D = 2 * n"
  define m where "m = N div D"
  define r where "r = N mod D"
  have D: "0 < D" using n by (simp add: D_def)
  have r: "1 \<le> r" "r + 1 \<le> D"
    using nh D by (simp_all add: r_def N_def D_def Suc_leI)
  have N: "N = m * D + r" by (simp add: m_def r_def)
  have X: "100 * real k / real n + 1 / 2 = real N / real D"
    using n by (simp add: N_def D_def field_simps)
  have "real N / real D = real m + real r / real D"
    using D by (simp add: N field_simps)
  moreover have "1 / real D \<le> real r / real D"
    using r D by (simp add: divide_right_mono)
  moreover have "real r / real D \<le> 1 - 1 / real D"
  proof -
    have "real r + 1 \<le> real D" using r by linarith
    then show ?thesis using D by (simp add: field_simps)
  qed
  ultimately have lo: "real m + 1 / real D \<le> 100 * real k / real n + 1 / 2"
    and hi: "100 * real k / real n + 1 / 2 \<le> real m + 1 - 1 / real D"
    using X by linarith+
  have c: "\<bar>p - 100 * real k / real n\<bar> < 1 / real D"
    using close by (simp add: D_def)
  have "real m \<le> p + 1 / 2" "p + 1 / 2 < real m + 1"
    using lo hi c by linarith+
  then have "\<lfloor>p + 1 / 2\<rfloor> = int m"
    by (intro floor_unique) simp_all
  then show ?thesis by (simp add: m_def N_def D_def)
qed

text \<open>The quotient and the product of the score, two roundings, against the exact value.\<close>

lemma score_error:
  fixes k n :: nat
  assumes n: "0 < n" and kn: "k \<le> n"
  shows "\<bar>fmul (fdiv (real k) (real n)) 100 - 100 * real k / real n\<bar> \<le> 201 / 2 ^ 53"
proof -
  define x where "x = real k / real n"
  define q where "q = fl x"
  define p where "p = fl (q * 100)"
  have x: "0 \<le> x" "x \<le> 1" using n kn by (simp_all add: x_def)
  have qx: "\<bar>q - x\<bar> \<le> 1 / 2 ^ 53"
  proof -
    have "\<bar>q - x\<bar> \<le> \<bar>x\<bar> / 2 ^ 53" unfolding q_def by (rule fl_error)
    also have "\<dots> \<le> 1 / 2 ^ 53" using x by (simp add: divide_right_mono)
    finally show ?thesis .
  qed
  then have q: "\<bar>q\<bar> \<le> 1 + 1 / 2 ^ 53" using x by linarith
  have "\<bar>p - q * 100\<bar> \<le> \<bar>q * 100\<bar> / 2 ^ 53" unfolding p_def by (rule fl_error)
  also have "\<dots> \<le> ((1 + 1 / 2 ^ 53) * 100) / 2 ^ 53"
    using q by (intro divide_right_mono) (simp_all add: abs_mult)
  finally have pq: "\<bar>p - q * 100\<bar> \<le> ((1 + 1 / 2 ^ 53) * 100) / 2 ^ 53" .
  have "\<bar>p - 100 * x\<bar> = \<bar>(p - q * 100) + 100 * (q - x)\<bar>" by (simp add: algebra_simps)
  also have "\<dots> \<le> \<bar>p - q * 100\<bar> + \<bar>100 * (q - x)\<bar>" by (rule abs_triangle_ineq)
  also have "\<dots> = \<bar>p - q * 100\<bar> + 100 * \<bar>q - x\<bar>" by (simp only: abs_mult abs_numeral)
  also have "\<dots> \<le> ((1 + 1 / 2 ^ 53) * 100) / 2 ^ 53 + 100 * (1 / 2 ^ 53)"
    using pq qx by (intro add_mono mult_left_mono) simp_all
  also have "\<dots> \<le> 201 / 2 ^ 53" by simp
  finally show ?thesis by (simp add: p_def q_def x_def fmul_def fdiv_def)
qed

lemma score_round:
  fixes k n :: nat
  assumes n: "0 < n" and kn: "k \<le> n" and bound: "n < 2 ^ 32"
    and nh: "(200 * k + n) mod (2 * n) \<noteq> 0"
  shows "Math_round (fmul (fdiv (real k) (real n)) 100)
           = of_int \<lfloor>100 * real k / real n + 1 / 2\<rfloor>"
proof -
  have "(201::real) / 2 ^ 53 < 1 / (2 * 2 ^ 32)" by simp
  also have "\<dots> \<le> 1 / (2 * real n)"
  proof -
    have "real n \<le> 2 ^ 32"
      using bound by (metis less_imp_le of_nat_le_iff of_nat_numeral of_nat_power)
    then show ?thesis using n by (simp add: field_simps)
  qed
  finally have d: "(201::real) / 2 ^ 53 < 1 / (2 * real n)" .
  have 1: "\<lfloor>fmul (fdiv (real k) (real n)) 100 + 1 / 2\<rfloor> = int ((200 * k + n) div (2 * n))"
    using score_error [OF n kn] d by (intro floor_half_stable [OF n nh]) linarith
  have 2: "\<lfloor>100 * real k / real n + 1 / 2\<rfloor> = int ((200 * k + n) div (2 * n))"
    using n by (intro floor_half_stable [OF n nh]) simp
  show ?thesis by (simp only: Math_round_def 1 2)
qed

lemma finalScore_nearest:
  fixes k n :: nat
  assumes "isComplete s" and "session_invariant s"
    and "n = length (questions s)" and "k = length (filter isCorrect (results s))"
    and "0 < n" and "n < 2 ^ 32"
    and "100 * real k / real n + 1 / 2 \<notin> \<int>"
  shows "finalScore s = Score (of_int \<lfloor>100 * real k / real n + 1 / 2\<rfloor>)"
proof -
  have "k \<le> length (results s)" using assms(4) by simp
  with assms have kn: "k \<le> n" by (simp add: session_invariant_def)
  have nh: "(200 * k + n) mod (2 * n) \<noteq> 0"
  proof
    assume "(200 * k + n) mod (2 * n) = 0"
    then obtain m where m: "200 * k + n = 2 * n * m" by (auto simp: mod_eq_0_iff_dvd)
    then have "real (200 * k + n) = real (2 * n * m)" by simp
    then have "100 * real k / real n + 1 / 2 = real m"
      using \<open>0 < n\<close> by (simp add: field_simps)
    with assms(7) show False by simp
  qed
  show ?thesis
    using assms score_round [OF \<open>0 < n\<close> kn \<open>n < 2 ^ 32\<close> nh]
    by (simp add: finalScore_def Let_def)
qed

lemma completed_facts:
  "isComplete (completed nd)" "session_invariant (completed nd)"
  "length (questions (completed nd)) = 3"
  "length (filter isCorrect (results (completed nd))) = 2"
  "node (completed nd) = nd"
  by (simp_all add: completed_def session_invariant_def)

lemma two_of_three: "100 * real 2 / real 3 + 1 / 2 \<notin> \<int>" "\<lfloor>100 * real 2 / real 3 + 1 / 2\<rfloor> = 67"
  by (simp_all flip: of_int_floor_cancel)

lemma finalScore_completed: "finalScore (completed nd) = Score 67"
  using finalScore_nearest [of "completed nd" 3 2]
  by (simp add: completed_facts two_of_three)

text \<open>
  \<^verbatim>\<open>passed\<close> compares the final score with the threshold, which is the pass score of the
  node when the node is known and its pass score is not 0, and 70 otherwise.
\<close>

lemma passed_by_threshold:
  "passed s =
     (case finalScore s of
        Score f \<Rightarrow>
          (case node s of
             None \<Rightarrow> 70
           | Some nd \<Rightarrow> if pass_score nd = 0 then 70 else pass_score nd) \<le> f
      | NotANumber \<Rightarrow> False
      | PlusInfinity \<Rightarrow> True)"
  by (simp add: passed_def pass_threshold_def truthy_def split: option.splits score.splits)

text \<open>
  The example of the specification, run from the loaded page: for 3 questions with 2
  correct the final score is 67; the session is not passed at pass score 70 and without a
  node, and passed at pass score 60.
\<close>

lemma example_session_scores:
  "fires (loaded [trend_question 1, trend_question 2, trend_question 3] (Some (example_node 70)))
     example_events = Some (Inr (completed (Some (example_node 70))))"
  "finalScore (completed (Some (example_node 70))) = Score 67"
  "\<not> passed (completed (Some (example_node 70)))"
  "passed (completed (Some (example_node 60)))"
  "\<not> passed (completed None)"
  by (simp_all add: passed_by_threshold finalScore_completed completed_facts
      example_session_runs example_node_def)

text \<open>
  Claim C2: when the session is complete with \<open>n > 0\<close> questions, the final score is
  \<open>100\<close> times the number of correct results over \<open>n\<close>, rounded, and \<^verbatim>\<open>passed\<close> is true iff the
  final score is at least the pass score of the node, 70 standing in when the node is not
  known. The code does not do this for a node whose pass score is 0: the example session,
  run from the loaded page with such a node, ends with the final score 67, which is at
  least the pass score 0, and \<^verbatim>\<open>passed\<close> is false.
\<close>

theorem pass_score_zero_not_passed:
  "fires (loaded [trend_question 1, trend_question 2, trend_question 3] (Some (example_node 0)))
     example_events = Some (Inr (completed (Some (example_node 0)))) \<and>
   map_option pass_score (node (completed (Some (example_node 0)))) = Some 0 \<and>
   finalScore (completed (Some (example_node 0))) = Score 67 \<and>
   \<not> passed (completed (Some (example_node 0)))"
  by (simp add: passed_by_threshold finalScore_completed completed_facts example_session_runs
      example_node_def)

text \<open>
  Claim C10: when the session is complete, the node is known and its pass score is 0, the
  threshold is 70: \<^verbatim>\<open>passed\<close> is true iff the final score is at least 70.
\<close>

theorem zero_pass_score_is_seventy:
  assumes "isComplete s" and "questions s \<noteq> []" and "node s = Some nd" and "pass_score nd = 0"
  shows "pass_threshold s = 70 \<and>
         (\<exists>f. finalScore s = Score f \<and> passed s = (70 \<le> f))"
  using assms by (simp add: pass_threshold_def truthy_def passed_def finalScore_def Let_def)

theorem zero_pass_score_is_seventy_witness:
  "isComplete (completed (Some (example_node 0))) \<and>
   pass_score (example_node 0) = 0 \<and>
   pass_threshold (completed (Some (example_node 0))) = 70 \<and>
   (\<exists>f. finalScore (completed (Some (example_node 0))) = Score f \<and>
        passed (completed (Some (example_node 0))) = (70 \<le> f))"
  using zero_pass_score_is_seventy [of "completed (Some (example_node 0))" "example_node 0"]
  by (simp add: completed_def example_node_def)

section \<open>The village form: the cost of the first village\<close>

text \<open>
  Claim C8: for every submission of the village form that calls the persistence
  collaborator, a cost in the request is 0 if the village qualifies as the first village,
  whatever cost the user entered, and is the cost the user entered otherwise. The request
  that creates a village always carries a cost; the request that updates one carries a cost
  only where it differs from the cost of the village being edited.
\<close>

theorem first_village_cost_zero:
  assumes "handleSubmit p values = Some call"
  shows "(\<forall>c. cost_sent call = Some c \<longrightarrow>
              c = (if isFirstVillage p then 0 else form_cost values)) \<and>
         (editingVillage p = None \<longrightarrow>
            cost_sent call = Some (if isFirstVillage p then 0 else form_cost values))"
  using assms
  by (auto simp: handleSubmit_def cost_sent_def Let_def split: option.splits if_splits)

text \<open>
  With the cost 500 entered: the first village of a subject is created at cost 0 and a
  second one at cost 500; editing the first village, whose cost is 0, sends its new title
  and no cost.
\<close>

theorem first_village_cost_zero_witness:
  "isFirstVillage (example_page [] None) \<and>
   map_option cost_sent (handleSubmit (example_page [] None) (example_values ''Grammar'' 500))
     = Some (Some 0) \<and>
   map_option cost_sent
     (handleSubmit (example_page [example_village 0] None) (example_values ''Grammar'' 500))
     = Some (Some 500) \<and>
   isFirstVillage (example_page [example_village 0] (Some (example_village 0))) \<and>
   handleSubmit (example_page [example_village 0] (Some (example_village 0)))
       (example_values ''Syntax'' 500)
     = Some (updateVillage 4
         \<lparr>update_title = Some ''Syntax'', update_svg = None, update_treasure_capacity = None,
          update_speed_production_treasure = None, update_cost = None\<rparr>)"
proof -
  let ?new = "\<lparr>create_title = ''Grammar'', create_type = ''village'',
      create_subject = ''english'', create_svg = None, create_treasure_capacity = Some 300,
      create_speed_production_treasure = Some 1, create_cost = Some 0\<rparr>"
  have first: "isFirstVillage (example_page [] None)"
    by (simp add: isFirstVillage_def example_page_def)
  have submit: "handleSubmit (example_page [] None) (example_values ''Grammar'' 500)
      = Some (createVillage ?new)"
    by (simp add: handleSubmit_def isFirstVillage_def example_page_def example_values_def
        or_absent_def)
  from first_village_cost_zero [OF submit] first
  have "cost_sent (createVillage ?new) = Some 0"
    by (simp add: example_page_def)
  with submit first show ?thesis
    by (simp add: handleSubmit_def isFirstVillage_def example_page_def example_values_def
        example_village_def or_absent_def cost_sent_def truthy_def)
qed

end
